theory Spec2Isabelle
  imports Main
begin

section \<open>Data model of \<open>src/index.ts\<close>\<close>

text \<open>
  The bot answers every \<open>Ping\<close> event of a contract with one \<open>pong\<close> transaction.
  Of an ethers \<open>EventLog\<close> the code reads two fields only. Block numbers, gas limits and
  receipt statuses are JavaScript numbers holding integers; they are modelled as \<open>int\<close>.
\<close>

record event =
  transactionHash :: string
  blockNumber :: int

definition COMMON_PING_EVENT_QUEUE :: string where
  "COMMON_PING_EVENT_QUEUE = ''Common_Ping_Event_Queue''"

definition FORCE_PING_EVENT_QUEUE :: string where
  "FORCE_PING_EVENT_QUEUE = ''Force_Ping_Event_Queue''"

text \<open>
  An object \<open>{ [txHash: string]: { blockNumber: number } }\<close> is a finite map from
  transaction hashes to block numbers.
\<close>

type_synonym txmap = "string \<rightharpoonup> int"

text \<open>
  The snapshot read from and written to the state file (interface \<open>State\<close>). The
  constructor tolerates a file without the two maps (\<open>data.sentTransactions || {}\<close>),
  so they are optional in what \<open>JSON.parse\<close> returns.
\<close>

record State =
  lastBlock :: int
  sentTransactions :: "txmap option"
  failedTransactions :: "txmap option"

text \<open>The two fields of \<open>Configuration\<close> that the state manager and the bot read.\<close>

record Configuration =
  cfg_lastBlock :: int
  cfg_defaultGasLimit :: int

definition Configuration_new :: Configuration where
  "Configuration_new = \<lparr>cfg_lastBlock = 7979028, cfg_defaultGasLimit = 50000\<rparr>"

section \<open>Class \<open>Queue\<close>\<close>

record Queue =
  queueName :: string
  queue :: "event list"
  gasModifier :: int
  lock :: bool

datatype log_level = Info | Warn

definition Queue_new :: "string \<Rightarrow> int \<Rightarrow> Queue" where
  "Queue_new name modifier =
     \<lparr>queueName = name, queue = [], gasModifier = modifier, lock = False\<rparr>"

text \<open>
  \<open>push\<close> returns the queue together with the level of the one log line it emits:
  \<open>logger.info\<close> when the event was appended, \<open>logger.warn\<close> for a duplicate.
\<close>

definition push :: "event \<Rightarrow> Queue \<Rightarrow> Queue \<times> log_level" where
  "push ev q =
     (if \<not> list_ex (\<lambda>e. transactionHash e = transactionHash ev) (queue q)
      then (q\<lparr>queue := queue q @ [ev]\<rparr>, Info)
      else (q, Warn))"

text \<open>\<open>Array.prototype.shift\<close> returns \<open>undefined\<close> on an empty array.\<close>

definition shift :: "Queue \<Rightarrow> event option \<times> Queue" where
  "shift q =
     (case queue q of
        [] \<Rightarrow> (None, q)
      | e # es \<Rightarrow> (Some e, q\<lparr>queue := es\<rparr>))"

definition getFirst :: "Queue \<Rightarrow> event option" where
  "getFirst q = (case queue q of [] \<Rightarrow> None | e # es \<Rightarrow> Some e)"

definition length_q :: "Queue \<Rightarrow> nat" where
  "length_q q = length (queue q)"

section \<open>Class \<open>BotStateManagerFS\<close>\<close>

text \<open>
  The three private fields, and the content of the file named \<open>_stateFile\<close>:
  \<open>None\<close> while the file does not exist. Writing the file is assumed to succeed.
\<close>

record BotStateManagerFS =
  mgr_lastBlock :: int
  mgr_sentTransactions :: txmap
  mgr_failedTransactions :: txmap
  mgr_stateFile :: "State option"

definition saveState :: "BotStateManagerFS \<Rightarrow> BotStateManagerFS" where
  "saveState m =
     m\<lparr>mgr_stateFile :=
         Some \<lparr>lastBlock = mgr_lastBlock m,
               sentTransactions = Some (mgr_sentTransactions m),
               failedTransactions = Some (mgr_failedTransactions m)\<rparr>\<rparr>"

definition BotStateManagerFS_new :: "Configuration \<Rightarrow> State option \<Rightarrow> BotStateManagerFS" where
  "BotStateManagerFS_new configuration file =
     saveState
       (case file of
          None \<Rightarrow>
            \<lparr>mgr_lastBlock = cfg_lastBlock configuration,
             mgr_sentTransactions = Map.empty,
             mgr_failedTransactions = Map.empty,
             mgr_stateFile = file\<rparr>
        | Some data \<Rightarrow>
            \<lparr>mgr_lastBlock =
               (if lastBlock data \<ge> cfg_lastBlock configuration then lastBlock data
                else cfg_lastBlock configuration),
             mgr_sentTransactions =
               (case sentTransactions data of Some s \<Rightarrow> s | None \<Rightarrow> Map.empty),
             mgr_failedTransactions =
               (case failedTransactions data of Some f \<Rightarrow> f | None \<Rightarrow> Map.empty),
             mgr_stateFile = file\<rparr>)"

definition getLastBlock :: "BotStateManagerFS \<Rightarrow> int" where
  "getLastBlock m = mgr_lastBlock m"

definition addSentTransaction :: "string \<Rightarrow> int \<Rightarrow> BotStateManagerFS \<Rightarrow> BotStateManagerFS" where
  "addSentTransaction pingTxHash bn m =
     saveState (m\<lparr>mgr_sentTransactions := (mgr_sentTransactions m)(pingTxHash \<mapsto> bn)\<rparr>)"

definition addFailedTransaction :: "string \<Rightarrow> int \<Rightarrow> BotStateManagerFS \<Rightarrow> BotStateManagerFS" where
  "addFailedTransaction pingTxHash bn m =
     saveState (m\<lparr>mgr_failedTransactions := (mgr_failedTransactions m)(pingTxHash \<mapsto> bn)\<rparr>)"

text \<open>The \<open>for ... in\<close> loop deletes every key whose entry lies below the block.\<close>

definition clearTransactionsBeforeBlock :: "int \<Rightarrow> BotStateManagerFS \<Rightarrow> BotStateManagerFS" where
  "clearTransactionsBeforeBlock bn m =
     saveState
       (m\<lparr>mgr_sentTransactions :=
            (\<lambda>txHash. case mgr_sentTransactions m txHash of
                         None \<Rightarrow> None
                       | Some b \<Rightarrow> if b < bn then None else Some b)\<rparr>)"

definition setLastBlock :: "int \<Rightarrow> BotStateManagerFS \<Rightarrow> BotStateManagerFS" where
  "setLastBlock bn m = saveState (m\<lparr>mgr_lastBlock := bn\<rparr>)"

definition getSentTransactions :: "BotStateManagerFS \<Rightarrow> txmap" where
  "getSentTransactions m = mgr_sentTransactions m"

section \<open>Class \<open>Bot\<close>\<close>

text \<open>
  The contract is an external collaborator. The field \<open>contract\<close> keeps the calls the bot
  has made on it, in order; what the contract answers is an argument of the function that
  receives the answer. \<open>contract.pong\<close> may reject, \<open>tx.wait\<close> may reject, or a receipt
  with a status arrives; \<open>contract.queryFilter\<close> rejects (\<open>None\<close>) or returns events.
\<close>

datatype contract_call = Pong string int | QueryFilter int int

datatype pong_outcome = PongRejected | WaitRejected | Receipt int

datatype error = PongError | WaitError | TransactionFailed | QueryError

record Bot =
  eventQueue :: Queue
  forceEventQueue :: Queue
  defaultGasLimit :: int
  botStateManager :: BotStateManagerFS
  contract :: "contract_call list"

definition Bot_new :: "Configuration \<Rightarrow> Queue \<Rightarrow> Queue \<Rightarrow> BotStateManagerFS \<Rightarrow> Bot" where
  "Bot_new configuration evq fevq mgr =
     \<lparr>eventQueue = evq, forceEventQueue = fevq,
      defaultGasLimit = cfg_defaultGasLimit configuration,
      botStateManager = mgr, contract = []\<rparr>"

text \<open>The objects built at the end of the file, from a configuration and the state file.\<close>

definition bot_start :: "Configuration \<Rightarrow> State option \<Rightarrow> Bot" where
  "bot_start configuration file =
     Bot_new configuration
       (Queue_new COMMON_PING_EVENT_QUEUE 1)
       (Queue_new FORCE_PING_EVENT_QUEUE 2)
       (BotStateManagerFS_new configuration file)"

text \<open>
  \<open>queueHandle\<close> and \<open>handleErrorPong\<close> take a queue object and mutate it; the program
  passes \<open>this.eventQueue\<close> or \<open>this.forceEventQueue\<close>. A reference names which one.
\<close>

datatype queue_ref = EventQueue | ForceEventQueue

fun deref :: "queue_ref \<Rightarrow> Bot \<Rightarrow> Queue" where
  "deref EventQueue b = eventQueue b"
| "deref ForceEventQueue b = forceEventQueue b"

fun assign :: "queue_ref \<Rightarrow> Queue \<Rightarrow> Bot \<Rightarrow> Bot" where
  "assign EventQueue q b = b\<lparr>eventQueue := q\<rparr>"
| "assign ForceEventQueue q b = b\<lparr>forceEventQueue := q\<rparr>"

definition set_lock :: "queue_ref \<Rightarrow> bool \<Rightarrow> Bot \<Rightarrow> Bot" where
  "set_lock r v b = assign r ((deref r b)\<lparr>lock := v\<rparr>) b"

text \<open>The \<open>switch\<close> on \<open>queue.queueName\<close>: one case and the default.\<close>

definition handleErrorPong :: "event \<Rightarrow> queue_ref \<Rightarrow> Bot \<Rightarrow> Bot" where
  "handleErrorPong ev r b =
     (if queueName (deref r b) = COMMON_PING_EVENT_QUEUE
      then b\<lparr>forceEventQueue := fst (push ev (forceEventQueue b))\<rparr>
      else b\<lparr>botStateManager :=
               addFailedTransaction (transactionHash ev) (blockNumber ev) (botStateManager b)\<rparr>)"

text \<open>
  \<open>sendPong\<close> is asynchronous. Up to its first \<open>await\<close> it issues \<open>contract.pong\<close>
  (\<open>sendPong_call\<close>); when the answer is there it records the transaction or throws
  (\<open>sendPong_resume\<close>). A throw is the error in the first component; the state is what
  the throw leaves behind.
\<close>

definition sendPong_call :: "event \<Rightarrow> int \<Rightarrow> Bot \<Rightarrow> Bot" where
  "sendPong_call ev gasLimit b =
     b\<lparr>contract := contract b @ [Pong (transactionHash ev) gasLimit]\<rparr>"

definition sendPong_resume :: "event \<Rightarrow> pong_outcome \<Rightarrow> Bot \<Rightarrow> error option \<times> Bot" where
  "sendPong_resume ev resp b =
     (case resp of
        PongRejected \<Rightarrow> (Some PongError, b)
      | WaitRejected \<Rightarrow> (Some WaitError, b)
      | Receipt status \<Rightarrow>
          if status = 1
          then (None, b\<lparr>botStateManager :=
                          addSentTransaction (transactionHash ev) (blockNumber ev)
                            (botStateManager b)\<rparr>)
          else (Some TransactionFailed, b))"

definition sendPong :: "event \<Rightarrow> int \<Rightarrow> pong_outcome \<Rightarrow> Bot \<Rightarrow> error option \<times> Bot" where
  "sendPong ev gasLimit resp b = sendPong_resume ev resp (sendPong_call ev gasLimit b)"

text \<open>
  \<open>queueHandle\<close> likewise: \<open>queueHandle_begin\<close> runs to the \<open>await\<close> and returns the
  event whose pong is in flight, if any; \<open>queueHandle_resume\<close> is the rest, run when
  the answer arrives. Other callbacks may run in between. \<open>queueHandle\<close> is the two in
  sequence, for a drain that nothing interleaves with.
\<close>

definition queueHandle_begin :: "queue_ref \<Rightarrow> Bot \<Rightarrow> event option \<times> Bot" where
  "queueHandle_begin r b =
     (if lock (deref r b) then (None, b)
      else
        let b1 = set_lock r True b in
        (case shift (deref r b1) of
           (None, q) \<Rightarrow> (None, set_lock r False (assign r q b1))
         | (Some ev, q) \<Rightarrow>
             let b2 = assign r q b1 in
             (Some ev, sendPong_call ev (defaultGasLimit b2 * gasModifier (deref r b2)) b2)))"

definition queueHandle_resume :: "queue_ref \<Rightarrow> event \<Rightarrow> pong_outcome \<Rightarrow> Bot \<Rightarrow> Bot" where
  "queueHandle_resume r ev resp b =
     (case sendPong_resume ev resp b of
        (None, b') \<Rightarrow> set_lock r False b'
      | (Some err, b') \<Rightarrow> set_lock r False (handleErrorPong ev r b'))"

definition queueHandle :: "queue_ref \<Rightarrow> pong_outcome \<Rightarrow> Bot \<Rightarrow> Bot" where
  "queueHandle r resp b =
     (case queueHandle_begin r b of
        (None, b') \<Rightarrow> b'
      | (Some ev, b') \<Rightarrow> queueHandle_resume r ev resp b')"

text \<open>The loop over the events that \<open>queryFilter\<close> returned.\<close>

fun pushMissed :: "event list \<Rightarrow> Bot \<Rightarrow> Bot" where
  "pushMissed [] b = b"
| "pushMissed (ev # evs) b =
     pushMissed evs
       (if getSentTransactions (botStateManager b) (transactionHash ev) = None
        then b\<lparr>eventQueue := fst (push ev (eventQueue b))\<rparr>
        else b)"

text \<open>The last two statements of \<open>catchMissedEventsFromTo\<close>, outside its \<open>if\<close>.\<close>

definition moveLastBlock :: "int \<Rightarrow> Bot \<Rightarrow> Bot" where
  "moveLastBlock endBlockNumber b =
     b\<lparr>botStateManager :=
         clearTransactionsBeforeBlock endBlockNumber
           (setLastBlock endBlockNumber (botStateManager b))\<rparr>"

text \<open>
  \<open>catchMissedEventsFromTo\<close> reads nothing of the bot before its \<open>await\<close>, so it is
  modelled at the moment the query's answer arrives. A rejected query rejects the call
  before the last two statements.
\<close>

definition catchMissedEventsFromTo ::
    "int \<Rightarrow> int \<Rightarrow> event list option \<Rightarrow> Bot \<Rightarrow> error option \<times> Bot" where
  "catchMissedEventsFromTo startBlockNumber endBlockNumber resp b =
     (if endBlockNumber > startBlockNumber then
        let b1 = b\<lparr>contract :=
                     contract b @ [QueryFilter (startBlockNumber + 1) endBlockNumber]\<rparr> in
        (case resp of
           None \<Rightarrow> (Some QueryError, b1)
         | Some events \<Rightarrow> (None, moveLastBlock endBlockNumber (pushMissed events b1)))
      else (None, moveLastBlock endBlockNumber b))"

text \<open>The \<open>Ping\<close> listener installed by \<open>init\<close>, which captured \<open>currentBlock\<close>.\<close>

definition onPing :: "int \<Rightarrow> event \<Rightarrow> Bot \<Rightarrow> Bot" where
  "onPing currentBlock ev b =
     (if blockNumber ev > currentBlock
      then b\<lparr>eventQueue := fst (push ev (eventQueue b))\<rparr>
      else b)"

section \<open>Runs of the event loop\<close>

text \<open>
  The callbacks that the event loop can run, each atomic: a live \<open>Ping\<close>, the two halves
  of a drain, a whole drain, and a reconciliation with the answer of its query.
\<close>

datatype action =
    LivePing int event
  | DrainBegin queue_ref
  | DrainResume queue_ref event pong_outcome
  | Drain queue_ref pong_outcome
  | Reconcile int int "event list option"

fun exec :: "action \<Rightarrow> Bot \<Rightarrow> Bot" where
  "exec (LivePing currentBlock ev) b = onPing currentBlock ev b"
| "exec (DrainBegin r) b = snd (queueHandle_begin r b)"
| "exec (DrainResume r ev resp) b = queueHandle_resume r ev resp b"
| "exec (Drain r resp) b = queueHandle r resp b"
| "exec (Reconcile s e resp) b = snd (catchMissedEventsFromTo s e resp b)"

fun run :: "action list \<Rightarrow> Bot \<Rightarrow> Bot" where
  "run [] b = b"
| "run (a # as) b = run as (exec a b)"

text \<open>The value of \<open>getLastBlock\<close> after each of a sequence of reconciliations.\<close>

fun reconcileTrace :: "(int \<times> int \<times> event list option) list \<Rightarrow> Bot \<Rightarrow> int list" where
  "reconcileTrace [] b = []"
| "reconcileTrace ((s, e, resp) # cs) b =
     (let b' = snd (catchMissedEventsFromTo s e resp b)
      in getLastBlock (botStateManager b') # reconcileTrace cs b')"

text \<open>Pushes and shifts on one queue.\<close>

datatype queue_op = Push event | Shift

fun queue_exec :: "queue_op \<Rightarrow> Queue \<Rightarrow> Queue" where
  "queue_exec (Push ev) q = fst (push ev q)"
| "queue_exec Shift q = snd (shift q)"

fun queue_run :: "queue_op list \<Rightarrow> Queue \<Rightarrow> Queue" where
  "queue_run [] q = q"
| "queue_run (x # xs) q = queue_run xs (queue_exec x q)"

text \<open>The queue names that \<open>handleErrorPong\<close> tells the two queues apart by.\<close>

definition named :: "Bot \<Rightarrow> bool" where
  "named b \<longleftrightarrow>
     queueName (eventQueue b) = COMMON_PING_EVENT_QUEUE \<and>
     queueName (forceEventQueue b) = FORCE_PING_EVENT_QUEUE"

section \<open>A small run\<close>

text \<open>
  A bot started with floor 100 and no state file; a live \<open>Ping\<close> at block 120 is queued,
  its pong is rejected in the common queue and fails in the force queue.
\<close>

definition example_event :: event where
  "example_event = \<lparr>transactionHash = ''0xE1'', blockNumber = 120\<rparr>"

definition example_start :: Bot where
  "example_start = bot_start \<lparr>cfg_lastBlock = 100, cfg_defaultGasLimit = 50000\<rparr> None"

definition example_queued :: Bot where
  "example_queued = onPing 100 example_event example_start"

definition example_inflight :: Bot where
  "example_inflight = snd (queueHandle_begin EventQueue example_queued)"

definition example_escalated :: Bot where
  "example_escalated = queueHandle EventQueue PongRejected example_queued"

definition example_retrying :: Bot where
  "example_retrying = snd (queueHandle_begin ForceEventQueue example_escalated)"

definition example_failed :: Bot where
  "example_failed = queueHandle ForceEventQueue (Receipt 0) example_escalated"

section \<open>The state manager\<close>

text \<open>
  Claim C7. At construction the persisted \<open>lastBlock\<close> is adopted exactly when it is at
  least the configured floor, and the floor is used otherwise; without a state file
  \<open>getLastBlock\<close> returns the floor. With floor 100 and no file the result is 100, with a
  persisted 150 and floor 100 it is 150.
\<close>

theorem constructor_lastBlock:
  "getLastBlock (BotStateManagerFS_new cfg None) = cfg_lastBlock cfg \<and>
   (lastBlock data \<ge> cfg_lastBlock cfg \<longrightarrow>
      getLastBlock (BotStateManagerFS_new cfg (Some data)) = lastBlock data) \<and>
   (lastBlock data < cfg_lastBlock cfg \<longrightarrow>
      getLastBlock (BotStateManagerFS_new cfg (Some data)) = cfg_lastBlock cfg) \<and>
   (cfg_lastBlock cfg = 100 \<longrightarrow> getLastBlock (BotStateManagerFS_new cfg None) = 100) \<and>
   (cfg_lastBlock cfg = 100 \<and> lastBlock data = 150 \<longrightarrow>
      getLastBlock (BotStateManagerFS_new cfg (Some data)) = 150)"
  by (simp add: getLastBlock_def BotStateManagerFS_new_def saveState_def)

theorem constructor_lastBlock_witness:
  "getLastBlock
     (BotStateManagerFS_new \<lparr>cfg_lastBlock = 100, cfg_defaultGasLimit = 50000\<rparr> None) = 100 \<and>
   getLastBlock
     (BotStateManagerFS_new \<lparr>cfg_lastBlock = 100, cfg_defaultGasLimit = 50000\<rparr>
        (Some \<lparr>lastBlock = 150, sentTransactions = None, failedTransactions = None\<rparr>)) = 150 \<and>
   getLastBlock
     (BotStateManagerFS_new \<lparr>cfg_lastBlock = 100, cfg_defaultGasLimit = 50000\<rparr>
        (Some \<lparr>lastBlock = 50, sentTransactions = None, failedTransactions = None\<rparr>)) = 100"
  using
    constructor_lastBlock
      [of "\<lparr>cfg_lastBlock = 100, cfg_defaultGasLimit = 50000\<rparr>"
          "\<lparr>lastBlock = 150, sentTransactions = None, failedTransactions = None\<rparr>"]
    constructor_lastBlock
      [of "\<lparr>cfg_lastBlock = 100, cfg_defaultGasLimit = 50000\<rparr>"
          "\<lparr>lastBlock = 50, sentTransactions = None, failedTransactions = None\<rparr>"]
  by simp

text \<open>
  Claim C2, as amended. \<open>setLastBlock n\<close> has no guard: for every \<open>n\<close>, also one below the
  current value, it stores \<open>n\<close>, leaves the two maps alone and has written the snapshot
  with \<open>lastBlock = n\<close> to the state file when it returns.
\<close>

theorem setLastBlock_persists:
  "getLastBlock (setLastBlock n m) = n \<and>
   mgr_stateFile (setLastBlock n m) =
     Some \<lparr>lastBlock = n,
           sentTransactions = Some (mgr_sentTransactions m),
           failedTransactions = Some (mgr_failedTransactions m)\<rparr> \<and>
   mgr_sentTransactions (setLastBlock n m) = mgr_sentTransactions m \<and>
   mgr_failedTransactions (setLastBlock n m) = mgr_failedTransactions m"
  by (simp add: setLastBlock_def saveState_def getLastBlock_def)

theorem setLastBlock_persists_witness:
  "getLastBlock
     (setLastBlock 3
        (BotStateManagerFS_new \<lparr>cfg_lastBlock = 10, cfg_defaultGasLimit = 50000\<rparr> None)) = 3"
  using setLastBlock_persists
    [of 3 "BotStateManagerFS_new \<lparr>cfg_lastBlock = 10, cfg_defaultGasLimit = 50000\<rparr> None"]
  by simp

text \<open>
  Against claim C2 as stated: with \<open>getLastBlock\<close> at 10, \<open>setLastBlock 3\<close> does not fail
  and the persisted \<open>lastBlock\<close> changes from 10 to 3.
\<close>

theorem setLastBlock_regress_counterexample:
  "map_option lastBlock
     (mgr_stateFile
        (BotStateManagerFS_new \<lparr>cfg_lastBlock = 10, cfg_defaultGasLimit = 50000\<rparr> None)) = Some 10 \<and>
   map_option lastBlock
     (mgr_stateFile
        (setLastBlock 3
           (BotStateManagerFS_new \<lparr>cfg_lastBlock = 10, cfg_defaultGasLimit = 50000\<rparr> None))) = Some 3 \<and>
   getLastBlock
     (setLastBlock 3
        (BotStateManagerFS_new \<lparr>cfg_lastBlock = 10, cfg_defaultGasLimit = 50000\<rparr> None)) = 3"
  by (simp add: setLastBlock_def BotStateManagerFS_new_def saveState_def getLastBlock_def)

section \<open>Sending a pong\<close>

text \<open>
  Claim C10. \<open>sendPong\<close> returns without throwing exactly when a receipt with status 1
  arrives; then the sent map gains the entry from the event's \<open>transactionHash\<close> to its
  \<open>blockNumber\<close>. With any other answer it throws and leaves the state manager, and so
  the sent map, as it was. The queues are not touched either way.
\<close>

theorem sendPong_sent_iff:
  "(fst (sendPong ev gasLimit resp b) = None \<longleftrightarrow> resp = Receipt 1) \<and>
   (resp = Receipt 1 \<longrightarrow>
      getSentTransactions (botStateManager (snd (sendPong ev gasLimit resp b))) =
        (getSentTransactions (botStateManager b))(transactionHash ev \<mapsto> blockNumber ev)) \<and>
   (resp \<noteq> Receipt 1 \<longrightarrow>
      botStateManager (snd (sendPong ev gasLimit resp b)) = botStateManager b) \<and>
   eventQueue (snd (sendPong ev gasLimit resp b)) = eventQueue b \<and>
   forceEventQueue (snd (sendPong ev gasLimit resp b)) = forceEventQueue b"
  by (cases resp)
     (auto simp: sendPong_def sendPong_resume_def sendPong_call_def addSentTransaction_def
        saveState_def getSentTransactions_def)

theorem sendPong_sent_iff_witness:
  "fst (sendPong \<lparr>transactionHash = ''0xE1'', blockNumber = 120\<rparr> 50000 (Receipt 1)
          (bot_start Configuration_new None)) = None \<and>
   getSentTransactions
     (botStateManager
        (snd (sendPong \<lparr>transactionHash = ''0xE1'', blockNumber = 120\<rparr> 50000 (Receipt 1)
                (bot_start Configuration_new None)))) ''0xE1'' = Some 120 \<and>
   fst (sendPong \<lparr>transactionHash = ''0xE1'', blockNumber = 120\<rparr> 50000 (Receipt 0)
          (bot_start Configuration_new None)) \<noteq> None \<and>
   botStateManager
     (snd (sendPong \<lparr>transactionHash = ''0xE1'', blockNumber = 120\<rparr> 50000 (Receipt 0)
             (bot_start Configuration_new None))) =
     botStateManager (bot_start Configuration_new None)"
  using
    sendPong_sent_iff
      [of "\<lparr>transactionHash = ''0xE1'', blockNumber = 120\<rparr>" 50000 "Receipt 1"
          "bot_start Configuration_new None"]
    sendPong_sent_iff
      [of "\<lparr>transactionHash = ''0xE1'', blockNumber = 120\<rparr>" 50000 "Receipt 0"
          "bot_start Configuration_new None"]
  by simp

section \<open>Reconciliation\<close>

lemma mgr_moveLastBlock:
  "botStateManager (moveLastBlock e b) =
     clearTransactionsBeforeBlock e (setLastBlock e (botStateManager b))"
  by (simp add: moveLastBlock_def)

lemma sent_clear:
  "mgr_sentTransactions (clearTransactionsBeforeBlock bn m) txHash = Some v \<longleftrightarrow>
   mgr_sentTransactions m txHash = Some v \<and> bn \<le> v"
  by (auto simp: clearTransactionsBeforeBlock_def saveState_def split: option.splits)

lemma failed_clear:
  "mgr_failedTransactions (clearTransactionsBeforeBlock bn m) = mgr_failedTransactions m"
  by (simp add: clearTransactionsBeforeBlock_def saveState_def)

lemma catchMissed_completes:
  "fst (catchMissedEventsFromTo s e resp b) = None \<Longrightarrow>
   \<exists>b'. snd (catchMissedEventsFromTo s e resp b) = moveLastBlock e b'"
  by (auto simp: catchMissedEventsFromTo_def Let_def split: if_splits option.splits)

text \<open>
  Claim C9. After \<open>catchMissedEventsFromTo s e\<close> has completed, the sent map has no entry
  with a block number below \<open>e\<close>. The clearing step keeps every sent entry at or above
  \<open>e\<close> and does not change the failed map.
\<close>

theorem reconcile_gc_bound:
  "(fst (catchMissedEventsFromTo s e resp b0) = None \<longrightarrow>
      (\<forall>txHash bn.
         getSentTransactions (botStateManager (snd (catchMissedEventsFromTo s e resp b0))) txHash
           = Some bn \<longrightarrow> \<not> bn < e)) \<and>
   (\<forall>txHash bn.
      mgr_sentTransactions m txHash = Some bn \<and> e \<le> bn \<longrightarrow>
      mgr_sentTransactions (clearTransactionsBeforeBlock e m) txHash = Some bn) \<and>
   mgr_failedTransactions (clearTransactionsBeforeBlock e m) = mgr_failedTransactions m"
proof (intro conjI impI allI)
  fix txHash bn
  assume ok: "fst (catchMissedEventsFromTo s e resp b0) = None"
    and sent: "getSentTransactions
                 (botStateManager (snd (catchMissedEventsFromTo s e resp b0))) txHash = Some bn"
  from catchMissed_completes [OF ok] obtain b' where
    "snd (catchMissedEventsFromTo s e resp b0) = moveLastBlock e b'" ..
  with sent show "\<not> bn < e"
    by (simp add: getSentTransactions_def mgr_moveLastBlock sent_clear)
next
  fix txHash bn
  assume "mgr_sentTransactions m txHash = Some bn \<and> e \<le> bn"
  then show "mgr_sentTransactions (clearTransactionsBeforeBlock e m) txHash = Some bn"
    by (simp add: sent_clear)
next
  show "mgr_failedTransactions (clearTransactionsBeforeBlock e m) = mgr_failedTransactions m"
    by (rule failed_clear)
qed

theorem reconcile_gc_bound_witness:
  "fst (catchMissedEventsFromTo 100 200 (Some [])
          (bot_start \<lparr>cfg_lastBlock = 100, cfg_defaultGasLimit = 50000\<rparr>
             (Some \<lparr>lastBlock = 100,
                    sentTransactions = Some [''0xA'' \<mapsto> 50, ''0xB'' \<mapsto> 250],
                    failedTransactions = None\<rparr>))) = None \<and>
   getSentTransactions
     (botStateManager
        (snd (catchMissedEventsFromTo 100 200 (Some [])
                (bot_start \<lparr>cfg_lastBlock = 100, cfg_defaultGasLimit = 50000\<rparr>
                   (Some \<lparr>lastBlock = 100,
                          sentTransactions = Some [''0xA'' \<mapsto> 50, ''0xB'' \<mapsto> 250],
                          failedTransactions = None\<rparr>))))) ''0xB'' = Some 250 \<and>
   \<not> (250 :: int) < 200 \<and>
   getSentTransactions
     (botStateManager
        (snd (catchMissedEventsFromTo 100 200 (Some [])
                (bot_start \<lparr>cfg_lastBlock = 100, cfg_defaultGasLimit = 50000\<rparr>
                   (Some \<lparr>lastBlock = 100,
                          sentTransactions = Some [''0xA'' \<mapsto> 50, ''0xB'' \<mapsto> 250],
                          failedTransactions = None\<rparr>))))) ''0xA'' = None \<and>
   mgr_sentTransactions
     (BotStateManagerFS_new \<lparr>cfg_lastBlock = 100, cfg_defaultGasLimit = 50000\<rparr>
        (Some \<lparr>lastBlock = 100,
               sentTransactions = Some [''0xA'' \<mapsto> 50, ''0xB'' \<mapsto> 250],
               failedTransactions = None\<rparr>)) ''0xB'' = Some 250 \<and>
   (200 :: int) \<le> 250 \<and>
   mgr_sentTransactions
     (clearTransactionsBeforeBlock 200
        (BotStateManagerFS_new \<lparr>cfg_lastBlock = 100, cfg_defaultGasLimit = 50000\<rparr>
           (Some \<lparr>lastBlock = 100,
                  sentTransactions = Some [''0xA'' \<mapsto> 50, ''0xB'' \<mapsto> 250],
                  failedTransactions = None\<rparr>))) ''0xB'' = Some 250"
  using reconcile_gc_bound
    [of 100 200 "Some []"
        "bot_start \<lparr>cfg_lastBlock = 100, cfg_defaultGasLimit = 50000\<rparr>
           (Some \<lparr>lastBlock = 100,
                  sentTransactions = Some [''0xA'' \<mapsto> 50, ''0xB'' \<mapsto> 250],
                  failedTransactions = None\<rparr>)"
        "BotStateManagerFS_new \<lparr>cfg_lastBlock = 100, cfg_defaultGasLimit = 50000\<rparr>
           (Some \<lparr>lastBlock = 100,
                  sentTransactions = Some [''0xA'' \<mapsto> 50, ''0xB'' \<mapsto> 250],
                  failedTransactions = None\<rparr>)"]
  by (simp add: catchMissedEventsFromTo_def moveLastBlock_def bot_start_def Bot_new_def
        BotStateManagerFS_new_def saveState_def setLastBlock_def
        clearTransactionsBeforeBlock_def getSentTransactions_def)

text \<open>
  Claim C3, as amended. With \<open>e \<le> s\<close> the call completes, queries nothing, leaves both
  queues and the failed map unchanged; it still sets \<open>lastBlock\<close> to \<open>e\<close> and clears the
  sent entries below \<open>e\<close>, so the state manager is that of the last two statements.
\<close>

theorem reconcile_empty_range:
  "e \<le> s \<Longrightarrow>
   fst (catchMissedEventsFromTo s e resp b) = None \<and>
   contract (snd (catchMissedEventsFromTo s e resp b)) = contract b \<and>
   eventQueue (snd (catchMissedEventsFromTo s e resp b)) = eventQueue b \<and>
   forceEventQueue (snd (catchMissedEventsFromTo s e resp b)) = forceEventQueue b \<and>
   mgr_failedTransactions (botStateManager (snd (catchMissedEventsFromTo s e resp b))) =
     mgr_failedTransactions (botStateManager b) \<and>
   getLastBlock (botStateManager (snd (catchMissedEventsFromTo s e resp b))) = e \<and>
   botStateManager (snd (catchMissedEventsFromTo s e resp b)) =
     clearTransactionsBeforeBlock e (setLastBlock e (botStateManager b))"
  by (simp add: catchMissedEventsFromTo_def moveLastBlock_def getLastBlock_def
        clearTransactionsBeforeBlock_def setLastBlock_def saveState_def)

theorem reconcile_empty_range_witness:
  "(3 :: int) \<le> 10 \<and>
   fst (catchMissedEventsFromTo 10 3 None
          (bot_start \<lparr>cfg_lastBlock = 10, cfg_defaultGasLimit = 50000\<rparr> None)) = None \<and>
   contract
     (snd (catchMissedEventsFromTo 10 3 None
             (bot_start \<lparr>cfg_lastBlock = 10, cfg_defaultGasLimit = 50000\<rparr> None))) = [] \<and>
   getLastBlock
     (botStateManager
        (snd (catchMissedEventsFromTo 10 3 None
                (bot_start \<lparr>cfg_lastBlock = 10, cfg_defaultGasLimit = 50000\<rparr> None)))) = 3"
proof -
  have h: "(3 :: int) \<le> 10" by simp
  show ?thesis
    using h reconcile_empty_range
      [OF h, of None "bot_start \<lparr>cfg_lastBlock = 10, cfg_defaultGasLimit = 50000\<rparr> None"]
    by (simp add: bot_start_def Bot_new_def getLastBlock_def clearTransactionsBeforeBlock_def
          setLastBlock_def saveState_def)
qed

text \<open>
  Against claim C3 as stated: started with floor 10 and no state file, the call with
  range \<open>(10, 3)\<close> moves \<open>lastBlock\<close> from 10 to 3 and changes the state manager.
\<close>

theorem reconcile_empty_range_counterexample:
  "(3 :: int) \<le> 10 \<and>
   getLastBlock
     (botStateManager (bot_start \<lparr>cfg_lastBlock = 10, cfg_defaultGasLimit = 50000\<rparr> None)) = 10 \<and>
   getLastBlock
     (botStateManager
        (snd (catchMissedEventsFromTo 10 3 None
                (bot_start \<lparr>cfg_lastBlock = 10, cfg_defaultGasLimit = 50000\<rparr> None)))) = 3 \<and>
   botStateManager
     (snd (catchMissedEventsFromTo 10 3 None
             (bot_start \<lparr>cfg_lastBlock = 10, cfg_defaultGasLimit = 50000\<rparr> None))) \<noteq>
   botStateManager (bot_start \<lparr>cfg_lastBlock = 10, cfg_defaultGasLimit = 50000\<rparr> None)"
  by (simp add: catchMissedEventsFromTo_def moveLastBlock_def bot_start_def Bot_new_def
        BotStateManagerFS_new_def saveState_def setLastBlock_def
        clearTransactionsBeforeBlock_def getLastBlock_def)

lemma lastBlock_catchMissed:
  "getLastBlock (botStateManager (snd (catchMissedEventsFromTo s e resp b))) =
     (if s < e \<and> resp = None then getLastBlock (botStateManager b) else e)"
  by (auto simp: catchMissedEventsFromTo_def moveLastBlock_def getLastBlock_def Let_def
        clearTransactionsBeforeBlock_def setLastBlock_def saveState_def split: option.splits)

lemma sorted_reconcileTrace:
  "sorted (getLastBlock (botStateManager b) # map (\<lambda>c. fst (snd c)) cs) \<Longrightarrow>
   sorted (getLastBlock (botStateManager b) # reconcileTrace cs b)"
proof (induction cs arbitrary: b)
  case Nil
  then show ?case by simp
next
  case (Cons c cs)
  obtain s e resp where c: "c = (s, e, resp)" by (cases c)
  define b' where "b' = snd (catchMissedEventsFromTo s e resp b)"
  define l where "l = getLastBlock (botStateManager b)"
  have l': "getLastBlock (botStateManager b') = l \<or> getLastBlock (botStateManager b') = e"
    unfolding b'_def l_def lastBlock_catchMissed by simp
  from Cons.prems have le: "l \<le> e" and srt: "sorted (e # map (\<lambda>c. fst (snd c)) cs)"
    and all: "\<forall>x \<in> set (map (\<lambda>c. fst (snd c)) cs). l \<le> x"
    by (auto simp: c l_def)
  have "sorted (getLastBlock (botStateManager b') # map (\<lambda>c. fst (snd c)) cs)"
    using l' srt all by auto
  then have "sorted (getLastBlock (botStateManager b') # reconcileTrace cs b')"
    by (rule Cons.IH)
  moreover have "l \<le> getLastBlock (botStateManager b')"
    using l' le by auto
  ultimately have "sorted (l # getLastBlock (botStateManager b') # reconcileTrace cs b')"
    by auto
  then show ?case
    by (simp add: c b'_def l_def Let_def)
qed

text \<open>
  Claim C1, as amended. A reconciliation whose query is rejected leaves \<open>lastBlock\<close>
  unchanged; every other one sets it to its end block. Hence over a sequence of calls whose
  end blocks are non-decreasing, starting at or above the current \<open>lastBlock\<close>, the values
  of \<open>getLastBlock\<close> are non-decreasing.
\<close>

theorem watermark_follows_toBlock:
  "getLastBlock (botStateManager (snd (catchMissedEventsFromTo s e resp b))) =
     (if s < e \<and> resp = None then getLastBlock (botStateManager b) else e) \<and>
   (sorted (getLastBlock (botStateManager b) # map (\<lambda>c. fst (snd c)) cs) \<longrightarrow>
      sorted (getLastBlock (botStateManager b) # reconcileTrace cs b))"
  using lastBlock_catchMissed sorted_reconcileTrace by blast

theorem watermark_follows_toBlock_witness:
  "sorted [10 :: int, 20, 20, 35] \<and>
   reconcileTrace [(10, 20, Some []), (20, 20, None), (20, 35, Some [])]
     (bot_start \<lparr>cfg_lastBlock = 10, cfg_defaultGasLimit = 50000\<rparr> None) = [20, 20, 35] \<and>
   sorted
     (10 # reconcileTrace [(10, 20, Some []), (20, 20, None), (20, 35, Some [])]
        (bot_start \<lparr>cfg_lastBlock = 10, cfg_defaultGasLimit = 50000\<rparr> None))"
  using watermark_follows_toBlock
    [of 10 20 "Some []" "bot_start \<lparr>cfg_lastBlock = 10, cfg_defaultGasLimit = 50000\<rparr> None"
        "[(10, 20, Some []), (20, 20, None), (20, 35, Some [])]"]
  by (simp add: catchMissedEventsFromTo_def moveLastBlock_def bot_start_def Bot_new_def
        BotStateManagerFS_new_def saveState_def setLastBlock_def
        clearTransactionsBeforeBlock_def getLastBlock_def)

text \<open>
  Against claim C1 as stated: after a reconciliation up to block 20, one whose end block
  is 15 lowers \<open>lastBlock\<close> to 15.
\<close>

theorem watermark_regress_counterexample:
  "reconcileTrace [(10, 20, Some []), (20, 15, None)]
     (bot_start \<lparr>cfg_lastBlock = 10, cfg_defaultGasLimit = 50000\<rparr> None) = [20, 15] \<and>
   \<not> sorted
       (reconcileTrace [(10, 20, Some []), (20, 15, None)]
          (bot_start \<lparr>cfg_lastBlock = 10, cfg_defaultGasLimit = 50000\<rparr> None))"
  by (simp add: catchMissedEventsFromTo_def moveLastBlock_def bot_start_def Bot_new_def
        BotStateManagerFS_new_def saveState_def setLastBlock_def
        clearTransactionsBeforeBlock_def getLastBlock_def)

section \<open>The queue\<close>

lemma push_distinct:
  "distinct (map transactionHash (queue q)) \<Longrightarrow>
   distinct (map transactionHash (queue (fst (push ev q))))"
  by (auto simp: push_def list_ex_iff)

lemma shift_distinct:
  "distinct (map transactionHash (queue q)) \<Longrightarrow>
   distinct (map transactionHash (queue (snd (shift q))))"
  by (auto simp: shift_def split: list.splits)

lemma queue_run_distinct:
  "distinct (map transactionHash (queue q)) \<Longrightarrow>
   distinct (map transactionHash (queue (queue_run ops q)))"
proof (induction ops arbitrary: q)
  case Nil
  then show ?case by simp
next
  case (Cons x xs)
  then show ?case
    by (cases x) (simp_all add: push_distinct shift_distinct)
qed

lemma push_present:
  "list_ex (\<lambda>e. transactionHash e = transactionHash ev) (queue (fst (push ev q)))"
  by (auto simp: push_def list_ex_iff)

lemma distinct_one_copy:
  "distinct (map f xs) \<Longrightarrow> list_ex (\<lambda>x. f x = k) xs \<Longrightarrow>
   length (filter (\<lambda>x. f x = k) xs) = 1"
proof (induction xs)
  case Nil
  then show ?case by simp
next
  case (Cons x xs)
  show ?case
  proof (cases "f x = k")
    case True
    with Cons.prems have "\<forall>y \<in> set xs. f y \<noteq> k" by (auto simp: image_iff)
    then have "filter (\<lambda>x. f x = k) xs = []" by (simp add: filter_empty_conv)
    with True show ?thesis by simp
  next
    case False
    with Cons show ?thesis by simp
  qed
qed

text \<open>
  Claim C5. On a queue built by the constructor and any pushes and shifts, pushing two
  events with the same \<open>transactionHash\<close> leaves exactly one item with that hash: the
  second push returns the queue as it was and logs a warning. No such queue ever holds
  two items with the same hash, before or after the two pushes.
\<close>

theorem push_dedup:
  assumes same: "transactionHash e1 = transactionHash e2"
    and q: "q = queue_run ops (Queue_new name modifier)"
  shows "length (filter (\<lambda>e. transactionHash e = transactionHash e1)
                   (queue (fst (push e1 q)))) = 1 \<and>
         length (filter (\<lambda>e. transactionHash e = transactionHash e1)
                   (queue (fst (push e2 (fst (push e1 q)))))) = 1 \<and>
         push e2 (fst (push e1 q)) = (fst (push e1 q), Warn) \<and>
         distinct (map transactionHash (queue q)) \<and>
         distinct (map transactionHash (queue (fst (push e2 (fst (push e1 q))))))"
proof -
  have d: "distinct (map transactionHash (queue q))"
    unfolding q by (rule queue_run_distinct) (simp add: Queue_new_def)
  have d1: "distinct (map transactionHash (queue (fst (push e1 q))))"
    using d by (rule push_distinct)
  have p: "list_ex (\<lambda>e. transactionHash e = transactionHash e1) (queue (fst (push e1 q)))"
    by (rule push_present)
  have noop: "push e2 (fst (push e1 q)) = (fst (push e1 q), Warn)"
    using p same by (simp add: push_def [of e2])
  have "length (filter (\<lambda>e. transactionHash e = transactionHash e1)
                  (queue (fst (push e1 q)))) = 1"
    using d1 p by (rule distinct_one_copy)
  with noop d d1 show ?thesis by simp
qed

theorem push_dedup_witness:
  "transactionHash \<lparr>transactionHash = ''0xE1'', blockNumber = 120\<rparr> =
     transactionHash \<lparr>transactionHash = ''0xE1'', blockNumber = 121\<rparr> \<and>
   queue (fst (push \<lparr>transactionHash = ''0xE1'', blockNumber = 121\<rparr>
                 (fst (push \<lparr>transactionHash = ''0xE1'', blockNumber = 120\<rparr>
                         (queue_run [Push \<lparr>transactionHash = ''0xE0'', blockNumber = 110\<rparr>]
                            (Queue_new COMMON_PING_EVENT_QUEUE 1)))))) =
     [\<lparr>transactionHash = ''0xE0'', blockNumber = 110\<rparr>,
      \<lparr>transactionHash = ''0xE1'', blockNumber = 120\<rparr>] \<and>
   snd (push \<lparr>transactionHash = ''0xE1'', blockNumber = 121\<rparr>
          (fst (push \<lparr>transactionHash = ''0xE1'', blockNumber = 120\<rparr>
                  (queue_run [Push \<lparr>transactionHash = ''0xE0'', blockNumber = 110\<rparr>]
                     (Queue_new COMMON_PING_EVENT_QUEUE 1))))) = Warn \<and>
   length (filter (\<lambda>e. transactionHash e = ''0xE1'')
      (queue (fst (push \<lparr>transactionHash = ''0xE1'', blockNumber = 121\<rparr>
                 (fst (push \<lparr>transactionHash = ''0xE1'', blockNumber = 120\<rparr>
                         (queue_run [Push \<lparr>transactionHash = ''0xE0'', blockNumber = 110\<rparr>]
                            (Queue_new COMMON_PING_EVENT_QUEUE 1)))))))) = 1"
proof -
  have same: "transactionHash \<lparr>transactionHash = ''0xE1'', blockNumber = 120\<rparr> =
     transactionHash \<lparr>transactionHash = ''0xE1'', blockNumber = 121\<rparr>"
    by simp
  show ?thesis
    using same push_dedup [OF same refl,
        of "[Push \<lparr>transactionHash = ''0xE0'', blockNumber = 110\<rparr>]"
           COMMON_PING_EVENT_QUEUE 1]
    by (simp add: push_def Queue_new_def)
qed

section \<open>Draining a queue\<close>

lemma queue_names_differ: "FORCE_PING_EVENT_QUEUE \<noteq> COMMON_PING_EVENT_QUEUE"
  by (simp add: FORCE_PING_EVENT_QUEUE_def COMMON_PING_EVENT_QUEUE_def)

lemma deref_assign: "deref r (assign r q b) = q"
  by (cases r) simp_all

lemma lock_set_lock: "lock (deref r (set_lock r v b)) = v"
  by (simp add: set_lock_def deref_assign)

lemma begin_locked: "lock (deref r b) \<Longrightarrow> queueHandle_begin r b = (None, b)"
  by (simp add: queueHandle_begin_def)

lemma begin_empty:
  "\<not> lock (deref r b) \<Longrightarrow> queue (deref r b) = [] \<Longrightarrow> queueHandle_begin r b = (None, b)"
  by (cases r) (simp_all add: queueHandle_begin_def set_lock_def shift_def)

lemma begin_cons:
  "\<not> lock (deref r b) \<Longrightarrow> queue (deref r b) = ev # rest \<Longrightarrow>
   queueHandle_begin r b =
     (Some ev,
      sendPong_call ev (defaultGasLimit b * gasModifier (deref r b))
        (assign r ((deref r b)\<lparr>lock := True, queue := rest\<rparr>) b))"
  by (cases r) (simp_all add: queueHandle_begin_def set_lock_def shift_def Let_def)

lemma resume_sent:
  "queueHandle_resume r ev (Receipt 1) b =
     set_lock r False
       (b\<lparr>botStateManager :=
            addSentTransaction (transactionHash ev) (blockNumber ev) (botStateManager b)\<rparr>)"
  by (simp add: queueHandle_resume_def sendPong_resume_def)

lemma resume_failed:
  "resp \<noteq> Receipt 1 \<Longrightarrow>
   queueHandle_resume r ev resp b = set_lock r False (handleErrorPong ev r b)"
  by (cases resp) (simp_all add: queueHandle_resume_def sendPong_resume_def)

lemma resume_cases:
  "queueHandle_resume r ev resp b =
     set_lock r False
       (b\<lparr>botStateManager :=
            addSentTransaction (transactionHash ev) (blockNumber ev) (botStateManager b)\<rparr>) \<or>
   queueHandle_resume r ev resp b = set_lock r False (handleErrorPong ev r b)"
  using resume_sent resume_failed by (cases "resp = Receipt 1") auto

lemma handleErrorPong_event:
  "named b \<Longrightarrow>
   handleErrorPong ev EventQueue b = b\<lparr>forceEventQueue := fst (push ev (forceEventQueue b))\<rparr>"
  by (simp add: handleErrorPong_def named_def)

lemma handleErrorPong_force:
  "named b \<Longrightarrow>
   handleErrorPong ev ForceEventQueue b =
     b\<lparr>botStateManager :=
         addFailedTransaction (transactionHash ev) (blockNumber ev) (botStateManager b)\<rparr>"
  by (simp add: handleErrorPong_def named_def queue_names_differ)

lemma named_sendPong_call: "named (sendPong_call ev g b) = named b"
  by (simp add: named_def sendPong_call_def)

lemma named_assign:
  "queueName q = queueName (deref r b) \<Longrightarrow> named (assign r q b) = named b"
  by (cases r) (simp_all add: named_def)

text \<open>
  Claim C6. With the queues named as the program names them and an attempt that fails:
  for the item drained from the common queue, \<open>push\<close> is called with that item on the
  force queue and the state manager is unchanged; for the item drained from the force
  queue, \<open>addFailedTransaction\<close> records its hash and block number, the item is gone
  from the force queue and the common queue is unchanged.
\<close>

theorem escalation_policy:
  assumes n: "named b" and f: "resp \<noteq> Receipt 1"
  shows
    "(\<not> lock (eventQueue b) \<and> queue (eventQueue b) = ev # rest \<longrightarrow>
        forceEventQueue (queueHandle EventQueue resp b) = fst (push ev (forceEventQueue b)) \<and>
        queue (eventQueue (queueHandle EventQueue resp b)) = rest \<and>
        botStateManager (queueHandle EventQueue resp b) = botStateManager b) \<and>
     (\<not> lock (forceEventQueue b) \<and> queue (forceEventQueue b) = ev # rest \<longrightarrow>
        botStateManager (queueHandle ForceEventQueue resp b) =
          addFailedTransaction (transactionHash ev) (blockNumber ev) (botStateManager b) \<and>
        queue (forceEventQueue (queueHandle ForceEventQueue resp b)) = rest \<and>
        eventQueue (queueHandle ForceEventQueue resp b) = eventQueue b)"
proof (intro conjI impI)
  assume a: "\<not> lock (eventQueue b) \<and> queue (eventQueue b) = ev # rest"
  define b1 where
    "b1 = sendPong_call ev (defaultGasLimit b * gasModifier (eventQueue b))
            (b\<lparr>eventQueue := (eventQueue b)\<lparr>lock := True, queue := rest\<rparr>\<rparr>)"
  have n1: "named b1"
    using n by (simp add: b1_def named_def sendPong_call_def)
  have "queueHandle_begin EventQueue b = (Some ev, b1)"
    using a begin_cons [of EventQueue b ev rest] by (simp add: b1_def)
  then have r: "queueHandle EventQueue resp b =
      set_lock EventQueue False (b1\<lparr>forceEventQueue := fst (push ev (forceEventQueue b1))\<rparr>)"
    using f n1 by (simp add: queueHandle_def resume_failed handleErrorPong_event)
  show "forceEventQueue (queueHandle EventQueue resp b) = fst (push ev (forceEventQueue b))"
    by (simp add: r set_lock_def b1_def sendPong_call_def)
  show "queue (eventQueue (queueHandle EventQueue resp b)) = rest"
    by (simp add: r set_lock_def b1_def sendPong_call_def)
  show "botStateManager (queueHandle EventQueue resp b) = botStateManager b"
    by (simp add: r set_lock_def b1_def sendPong_call_def)
next
  assume a: "\<not> lock (forceEventQueue b) \<and> queue (forceEventQueue b) = ev # rest"
  define b1 where
    "b1 = sendPong_call ev (defaultGasLimit b * gasModifier (forceEventQueue b))
            (b\<lparr>forceEventQueue := (forceEventQueue b)\<lparr>lock := True, queue := rest\<rparr>\<rparr>)"
  have n1: "named b1"
    using n by (simp add: b1_def named_def sendPong_call_def)
  have "queueHandle_begin ForceEventQueue b = (Some ev, b1)"
    using a begin_cons [of ForceEventQueue b ev rest] by (simp add: b1_def)
  then have r: "queueHandle ForceEventQueue resp b =
      set_lock ForceEventQueue False
        (b1\<lparr>botStateManager :=
              addFailedTransaction (transactionHash ev) (blockNumber ev) (botStateManager b1)\<rparr>)"
    using f n1 by (simp add: queueHandle_def resume_failed handleErrorPong_force)
  show "botStateManager (queueHandle ForceEventQueue resp b) =
          addFailedTransaction (transactionHash ev) (blockNumber ev) (botStateManager b)"
    by (simp add: r set_lock_def b1_def sendPong_call_def)
  show "queue (forceEventQueue (queueHandle ForceEventQueue resp b)) = rest"
    by (simp add: r set_lock_def b1_def sendPong_call_def)
  show "eventQueue (queueHandle ForceEventQueue resp b) = eventQueue b"
    by (simp add: r set_lock_def b1_def sendPong_call_def)
qed


lemmas example_defs =
  example_event_def example_start_def example_queued_def example_inflight_def
  example_escalated_def example_retrying_def
  example_failed_def

lemmas run_defs =
  bot_start_def Bot_new_def Queue_new_def BotStateManagerFS_new_def saveState_def
  onPing_def push_def shift_def queueHandle_def queueHandle_begin_def queueHandle_resume_def
  sendPong_call_def sendPong_resume_def handleErrorPong_def set_lock_def
  addFailedTransaction_def addSentTransaction_def catchMissedEventsFromTo_def
  moveLastBlock_def setLastBlock_def clearTransactionsBeforeBlock_def
  getSentTransactions_def getLastBlock_def
  COMMON_PING_EVENT_QUEUE_def FORCE_PING_EVENT_QUEUE_def

lemma example_queued_eval:
  "named example_queued \<and> \<not> lock (eventQueue example_queued) \<and>
   queue (eventQueue example_queued) = [example_event] \<and>
   queue (forceEventQueue example_queued) = [] \<and>
   contract example_queued = []"
  by (simp add: example_defs run_defs named_def)

lemma example_escalated_eval:
  "named example_escalated \<and> \<not> lock (forceEventQueue example_escalated) \<and>
   \<not> lock (eventQueue example_escalated) \<and>
   queue (eventQueue example_escalated) = [] \<and>
   queue (forceEventQueue example_escalated) = [example_event] \<and>
   contract example_escalated = [Pong ''0xE1'' 50000]"
  by (simp add: example_defs run_defs named_def)

lemma example_failed_eval:
  "named example_failed \<and> \<not> lock (forceEventQueue example_failed) \<and>
   \<not> lock (eventQueue example_failed) \<and>
   queue (eventQueue example_failed) = [] \<and>
   queue (forceEventQueue example_failed) = [] \<and>
   mgr_failedTransactions (botStateManager example_failed) ''0xE1'' = Some 120 \<and>
   mgr_sentTransactions (botStateManager example_failed) ''0xE1'' = None \<and>
   contract example_failed = [Pong ''0xE1'' 50000, Pong ''0xE1'' 100000]"
  by (simp add: example_defs run_defs named_def)


theorem escalation_policy_witness:
  "named example_queued \<and> PongRejected \<noteq> Receipt 1 \<and>
   \<not> lock (eventQueue example_queued) \<and>
   queue (eventQueue example_queued) = [example_event] \<and>
   forceEventQueue (queueHandle EventQueue PongRejected example_queued) =
     fst (push example_event (forceEventQueue example_queued)) \<and>
   queue (forceEventQueue (queueHandle EventQueue PongRejected example_queued)) =
     [example_event] \<and>
   named example_escalated \<and> Receipt 0 \<noteq> Receipt 1 \<and>
   \<not> lock (forceEventQueue example_escalated) \<and>
   queue (forceEventQueue example_escalated) = [example_event] \<and>
   mgr_failedTransactions
     (botStateManager (queueHandle ForceEventQueue (Receipt 0) example_escalated)) ''0xE1'' =
     Some 120 \<and>
   queue (forceEventQueue (queueHandle ForceEventQueue (Receipt 0) example_escalated)) = [] \<and>
   queue (eventQueue (queueHandle ForceEventQueue (Receipt 0) example_escalated)) = []"
proof -
  have n1: "named example_queued" and n2: "named example_escalated"
    using example_queued_eval example_escalated_eval by simp_all
  have f1: "PongRejected \<noteq> Receipt 1" and f2: "Receipt 0 \<noteq> Receipt 1"
    by simp_all
  have q: "queue (forceEventQueue example_queued) = []"
    using example_queued_eval by simp
  show ?thesis
    using escalation_policy [OF n1 f1, of example_event "[]"]
      escalation_policy [OF n2 f2, of example_event "[]"]
      example_queued_eval example_escalated_eval q
    by (simp add: push_def addFailedTransaction_def saveState_def example_event_def)
qed

section \<open>The drain lock\<close>

lemma contract_set_lock: "contract (set_lock r v b) = contract b"
  by (cases r) (simp_all add: set_lock_def)

lemma contract_handleErrorPong: "contract (handleErrorPong ev r b) = contract b"
  by (simp add: handleErrorPong_def)

lemma contract_resume: "contract (queueHandle_resume r ev resp b) = contract b"
  using resume_cases [of r ev resp b]
  by (auto simp: contract_set_lock contract_handleErrorPong)

lemma lock_resume: "\<not> lock (deref r (queueHandle_resume r ev resp b))"
  using resume_cases [of r ev resp b] by (auto simp: lock_set_lock)

lemma queue_resume:
  "named b \<Longrightarrow> queue (deref r (queueHandle_resume r ev resp b)) = queue (deref r b)"
  using resume_cases [of r ev resp b]
  by (cases r)
     (auto simp: set_lock_def handleErrorPong_event handleErrorPong_force)

lemma begin_pending_locked:
  "queueHandle_begin r b = (Some ev, b') \<Longrightarrow> lock (deref r b')"
  by (cases r)
     (auto simp: queueHandle_begin_def set_lock_def shift_def sendPong_call_def Let_def
        split: if_splits list.splits)

text \<open>
  Claim C8. With the lock set, a drain tick returns at once: nothing is in flight, and
  the bot, with its queues, state manager and contract calls, is unchanged. With the
  lock clear, a drain leaves the lock clear, makes at most one contract call and removes
  at most the head of the queue. While a pong is in flight the lock is set, and the second
  half of a drain clears it whatever the answer.
\<close>

theorem drain_lock:
  "(lock (deref r b) \<longrightarrow> queueHandle_begin r b = (None, b) \<and> queueHandle r resp b = b) \<and>
   (\<not> lock (deref r b) \<longrightarrow>
      \<not> lock (deref r (queueHandle r resp b)) \<and>
      length (contract (queueHandle r resp b)) \<le> length (contract b) + 1 \<and>
      (named b \<longrightarrow> queue (deref r (queueHandle r resp b)) = drop 1 (queue (deref r b)))) \<and>
   (queueHandle_begin r b = (Some ev, b') \<longrightarrow> lock (deref r b')) \<and>
   \<not> lock (deref r (queueHandle_resume r ev resp b))"
proof (intro conjI impI)
  assume "lock (deref r b)"
  then show "queueHandle_begin r b = (None, b)" by (rule begin_locked)
  then show "queueHandle r resp b = b" by (simp add: queueHandle_def)
next
  assume "queueHandle_begin r b = (Some ev, b')"
  then show "lock (deref r b')" by (rule begin_pending_locked)
next
  show "\<not> lock (deref r (queueHandle_resume r ev resp b))" by (rule lock_resume)
next
  assume u: "\<not> lock (deref r b)"
  show "\<not> lock (deref r (queueHandle r resp b))"
  proof (cases "queue (deref r b)")
    case Nil
    with u show ?thesis by (simp add: queueHandle_def begin_empty)
  next
    case (Cons x xs)
    with u show ?thesis by (simp add: queueHandle_def begin_cons lock_resume)
  qed
  show "length (contract (queueHandle r resp b)) \<le> length (contract b) + 1"
  proof (cases "queue (deref r b)")
    case Nil
    with u show ?thesis by (simp add: queueHandle_def begin_empty)
  next
    case (Cons x xs)
    with u show ?thesis
      by (cases r) (simp_all add: queueHandle_def begin_cons contract_resume sendPong_call_def)
  qed
  assume n: "named b"
  show "queue (deref r (queueHandle r resp b)) = drop 1 (queue (deref r b))"
  proof (cases "queue (deref r b)")
    case Nil
    with u show ?thesis by (simp add: queueHandle_def begin_empty)
  next
    case (Cons x xs)
    define b1 where
      "b1 = sendPong_call x (defaultGasLimit b * gasModifier (deref r b))
              (assign r ((deref r b)\<lparr>lock := True, queue := xs\<rparr>) b)"
    have n1: "named b1"
      using n by (simp add: b1_def named_sendPong_call named_assign)
    have "queueHandle r resp b = queueHandle_resume r x resp b1"
      using u Cons by (simp add: queueHandle_def begin_cons b1_def)
    then have "queue (deref r (queueHandle r resp b)) = queue (deref r b1)"
      using queue_resume [OF n1] by simp
    also have "queue (deref r b1) = xs"
      by (cases r) (simp_all add: b1_def sendPong_call_def)
    finally show ?thesis using Cons by simp
  qed
qed


lemma example_inflight_eval:
  "queueHandle_begin EventQueue example_queued = (Some example_event, example_inflight) \<and>
   lock (eventQueue example_inflight) \<and>
   queue (eventQueue example_inflight) = [] \<and>
   contract example_inflight = [Pong ''0xE1'' 50000]"
  by (simp add: example_defs run_defs)

theorem drain_lock_witness:
  "lock (deref EventQueue example_inflight) \<and>
   queueHandle_begin EventQueue example_inflight = (None, example_inflight) \<and>
   queueHandle EventQueue (Receipt 1) example_inflight = example_inflight \<and>
   \<not> lock (deref EventQueue example_queued) \<and> named example_queued \<and>
   queueHandle_begin EventQueue example_queued = (Some example_event, example_inflight) \<and>
   queue (deref EventQueue example_queued) = [example_event] \<and>
   queue (deref EventQueue (queueHandle EventQueue (Receipt 1) example_queued)) = [] \<and>
   \<not> lock (deref EventQueue (queueHandle EventQueue (Receipt 1) example_queued)) \<and>
   \<not> lock (deref EventQueue
            (queueHandle_resume EventQueue example_event (Receipt 1) example_inflight))"
  using
    drain_lock [of EventQueue example_inflight "Receipt 1" example_event example_inflight]
    drain_lock [of EventQueue example_queued "Receipt 1" example_event example_inflight]
    example_inflight_eval example_queued_eval
  by simp

section \<open>Escalation\<close>

lemma mgr_set_lock: "botStateManager (set_lock r v b) = botStateManager b"
  by (cases r) (simp_all add: set_lock_def)

lemma mgr_begin: "botStateManager (snd (queueHandle_begin r b)) = botStateManager b"
  by (cases r)
     (simp_all add: queueHandle_begin_def set_lock_def shift_def sendPong_call_def Let_def
        split: list.splits)

lemma mgr_onPing: "botStateManager (onPing c ev b) = botStateManager b"
  by (simp add: onPing_def)

lemma mgr_pushMissed: "botStateManager (pushMissed evs b) = botStateManager b"
  by (induction evs arbitrary: b) simp_all

lemma failed_addSent:
  "mgr_failedTransactions (addSentTransaction h n m) = mgr_failedTransactions m"
  by (simp add: addSentTransaction_def saveState_def)

lemma failed_addFailed:
  "mgr_failedTransactions (addFailedTransaction h n m) = (mgr_failedTransactions m)(h \<mapsto> n)"
  by (simp add: addFailedTransaction_def saveState_def)

lemma failed_setLastBlock:
  "mgr_failedTransactions (setLastBlock n m) = mgr_failedTransactions m"
  by (simp add: setLastBlock_def saveState_def)

lemma failed_resume:
  "mgr_failedTransactions (botStateManager b) k \<noteq> None \<Longrightarrow>
   mgr_failedTransactions (botStateManager (queueHandle_resume r ev resp b)) k \<noteq> None"
  using resume_cases [of r ev resp b]
  by (auto simp: mgr_set_lock failed_addSent failed_addFailed handleErrorPong_def)

lemma failed_catchMissed:
  "mgr_failedTransactions (botStateManager (snd (catchMissedEventsFromTo s e resp b))) =
   mgr_failedTransactions (botStateManager b)"
  by (auto simp: catchMissedEventsFromTo_def Let_def mgr_moveLastBlock failed_clear
        failed_setLastBlock mgr_pushMissed split: option.splits)

lemma failed_exec:
  "mgr_failedTransactions (botStateManager b) k \<noteq> None \<Longrightarrow>
   mgr_failedTransactions (botStateManager (exec a b)) k \<noteq> None"
proof (cases a)
  case (LivePing c ev)
  assume "mgr_failedTransactions (botStateManager b) k \<noteq> None"
  with LivePing show ?thesis by (simp add: mgr_onPing)
next
  case (DrainBegin r)
  assume "mgr_failedTransactions (botStateManager b) k \<noteq> None"
  with DrainBegin show ?thesis by (simp add: mgr_begin)
next
  case (DrainResume r ev resp)
  assume "mgr_failedTransactions (botStateManager b) k \<noteq> None"
  with DrainResume show ?thesis by (simp add: failed_resume)
next
  case (Drain r resp)
  assume f: "mgr_failedTransactions (botStateManager b) k \<noteq> None"
  obtain p b1 where beg: "queueHandle_begin r b = (p, b1)" by (cases "queueHandle_begin r b")
  then have "botStateManager b1 = botStateManager b"
    using mgr_begin [of r b] by simp
  with f have "mgr_failedTransactions (botStateManager b1) k \<noteq> None" by simp
  then show ?thesis
    using Drain beg by (cases p) (simp_all add: queueHandle_def failed_resume)
next
  case (Reconcile s e resp)
  assume "mgr_failedTransactions (botStateManager b) k \<noteq> None"
  with Reconcile show ?thesis by (simp add: failed_catchMissed)
qed

lemma failed_run:
  "mgr_failedTransactions (botStateManager b) k \<noteq> None \<Longrightarrow>
   mgr_failedTransactions (botStateManager (run acts b)) k \<noteq> None"
proof (induction acts arbitrary: b)
  case Nil
  then show ?case by simp
next
  case (Cons a acts)
  from Cons.prems have "mgr_failedTransactions (botStateManager (exec a b)) k \<noteq> None"
    by (rule failed_exec)
  then have "mgr_failedTransactions (botStateManager (run acts (exec a b))) k \<noteq> None"
    by (rule Cons.IH)
  then show ?case by simp
qed

text \<open>
  Claim C4, as amended. An event whose attempt fails for the common queue has its hash
  in the force queue afterwards. When its attempt fails for the force queue, its hash is
  recorded in the failed map with its block number, the failure handling adds it to no
  queue, and the hash stays in the failed map under every later sequence of live pings,
  drains and reconciliations.
\<close>

theorem escalation_records_failure:
  assumes n1: "named b1" and n2: "named b2"
    and f1: "resp1 \<noteq> Receipt 1" and f2: "resp2 \<noteq> Receipt 1"
  shows
    "list_ex (\<lambda>x. transactionHash x = transactionHash ev)
       (queue (forceEventQueue (queueHandle_resume EventQueue ev resp1 b1))) \<and>
     mgr_failedTransactions
       (botStateManager (queueHandle_resume ForceEventQueue ev resp2 b2)) (transactionHash ev) =
       Some (blockNumber ev) \<and>
     queue (eventQueue (queueHandle_resume ForceEventQueue ev resp2 b2)) =
       queue (eventQueue b2) \<and>
     queue (forceEventQueue (queueHandle_resume ForceEventQueue ev resp2 b2)) =
       queue (forceEventQueue b2) \<and>
     mgr_failedTransactions
       (botStateManager (run acts (queueHandle_resume ForceEventQueue ev resp2 b2)))
       (transactionHash ev) \<noteq> None"
proof -
  have r1: "queueHandle_resume EventQueue ev resp1 b1 =
      set_lock EventQueue False (b1\<lparr>forceEventQueue := fst (push ev (forceEventQueue b1))\<rparr>)"
    using f1 n1 by (simp add: resume_failed handleErrorPong_event)
  have r2: "queueHandle_resume ForceEventQueue ev resp2 b2 =
      set_lock ForceEventQueue False
        (b2\<lparr>botStateManager :=
              addFailedTransaction (transactionHash ev) (blockNumber ev) (botStateManager b2)\<rparr>)"
    using f2 n2 by (simp add: resume_failed handleErrorPong_force)
  have a: "list_ex (\<lambda>x. transactionHash x = transactionHash ev)
       (queue (forceEventQueue (queueHandle_resume EventQueue ev resp1 b1)))"
    by (simp add: r1 set_lock_def push_present)
  have b: "mgr_failedTransactions
       (botStateManager (queueHandle_resume ForceEventQueue ev resp2 b2)) (transactionHash ev) =
       Some (blockNumber ev)"
    by (simp add: r2 set_lock_def failed_addFailed)
  have c: "queue (eventQueue (queueHandle_resume ForceEventQueue ev resp2 b2)) =
       queue (eventQueue b2)"
    by (simp add: r2 set_lock_def)
  have d: "queue (forceEventQueue (queueHandle_resume ForceEventQueue ev resp2 b2)) =
       queue (forceEventQueue b2)"
    by (simp add: r2 set_lock_def)
  have e: "mgr_failedTransactions
       (botStateManager (run acts (queueHandle_resume ForceEventQueue ev resp2 b2)))
       (transactionHash ev) \<noteq> None"
    by (rule failed_run) (simp add: b)
  from a b c d e show ?thesis by simp
qed


lemma example_retrying_eval:
  "named example_inflight \<and> named example_retrying \<and>
   lock (forceEventQueue example_retrying) \<and>
   queue (forceEventQueue example_retrying) = [] \<and>
   queue (eventQueue example_retrying) = []"
  by (simp add: example_defs run_defs named_def)

theorem escalation_records_failure_witness:
  "named example_inflight \<and> named example_retrying \<and>
   PongRejected \<noteq> Receipt 1 \<and> Receipt 0 \<noteq> Receipt 1 \<and>
   list_ex (\<lambda>x. transactionHash x = ''0xE1'')
     (queue (forceEventQueue
        (queueHandle_resume EventQueue example_event PongRejected example_inflight))) \<and>
   mgr_failedTransactions
     (botStateManager
        (queueHandle_resume ForceEventQueue example_event (Receipt 0) example_retrying))
     ''0xE1'' = Some 120 \<and>
   queue (eventQueue
     (queueHandle_resume ForceEventQueue example_event (Receipt 0) example_retrying)) = [] \<and>
   queue (forceEventQueue
     (queueHandle_resume ForceEventQueue example_event (Receipt 0) example_retrying)) = [] \<and>
   mgr_failedTransactions
     (botStateManager
        (run [Reconcile 100 300 (Some [example_event]), Drain EventQueue (Receipt 1)]
           (queueHandle_resume ForceEventQueue example_event (Receipt 0) example_retrying)))
     ''0xE1'' \<noteq> None"
proof -
  have n1: "named example_inflight" and n2: "named example_retrying"
    using example_retrying_eval by simp_all
  have f1: "PongRejected \<noteq> Receipt 1" and f2: "Receipt 0 \<noteq> Receipt 1"
    by simp_all
  have h: "transactionHash example_event = ''0xE1''" "blockNumber example_event = 120"
    by (simp_all add: example_event_def)
  show ?thesis
    using escalation_records_failure [OF n1 n2 f1 f2, of example_event
        "[Reconcile 100 300 (Some [example_event]), Drain EventQueue (Receipt 1)]"]
      n1 n2 example_retrying_eval
    by (simp add: h)
qed

text \<open>
  Against claim C4 as stated: after the event has failed in both queues and is recorded
  as failed, the next reconciliation from \<open>lastBlock\<close> 100, whose query returns the
  event, queues it again, and so does a repeated live ping: only the sent map is consulted.
\<close>

theorem failed_event_requeued_counterexample:
  "mgr_failedTransactions (botStateManager example_failed) ''0xE1'' = Some 120 \<and>
   queue (eventQueue example_failed) = [] \<and>
   queue (forceEventQueue example_failed) = [] \<and>
   getLastBlock (botStateManager example_failed) = 100 \<and>
   queue (eventQueue (exec (Reconcile 100 300 (Some [example_event])) example_failed)) =
     [example_event] \<and>
   queue (eventQueue (exec (LivePing 100 example_event) example_failed)) = [example_event]"
  by (simp add: example_defs run_defs)

end
